theory Spec2Isabelle
  imports Main "HOL-Library.Word" "HOL-Library.Multiset"
begin

section \<open>The URL poller of gotour/idiomaticgo/share\_memory\_by\_communicating.go\<close>

text \<open>
  The program polls a fixed list of URLs with a pool of Poller goroutines, reports every
  result to a StateMonitor goroutine that owns the map of last-known states, and sends
  every polled Resource back to the pending channel after a delay that grows with the
  number of consecutive errors.

  Go's \<^verbatim>\<open>int\<close> is taken at its width on the 64-bit platforms (64 bits, two's complement,
  arithmetic wraps); \<^verbatim>\<open>time.Duration\<close> is \<^verbatim>\<open>int64\<close>, a count of nanoseconds.
\<close>

subsection \<open>Constants\<close>

type_synonym go_int = "64 word"
type_synonym Duration = "64 word"

definition Second :: Duration where
  "Second = 1000000000"

definition numPollers :: nat where
  "numPollers = 2"

definition pollInterval :: Duration where
  "pollInterval = 60 * Second"

definition statusInterval :: Duration where
  "statusInterval = 10 * Second"

definition errTimeout :: Duration where
  "errTimeout = 10 * Second"

definition urls :: "string list" where
  "urls = [''http://www.google.com/'', ''http://golang.org/'', ''http://blog.golang.org/'']"

subsection \<open>State and Resource\<close>

record State =
  url :: string
  status :: string

record Resource =
  url :: string
  errCount :: go_int

text \<open>
  The outcome of \<^verbatim>\<open>http.Head(r.url)\<close>, which the program does not compute itself:
  either a response, of which only \<^verbatim>\<open>resp.Status\<close> is read, or an error, of which only
  \<^verbatim>\<open>err.Error()\<close> is read.
\<close>

datatype head_result = Resp string | Err string

text \<open>
  \<^verbatim>\<open>Poll\<close> mutates the Resource, returns a string and, on an error, writes one line to the
  log (\<^verbatim>\<open>log.Println("Error", r.url, err)\<close>: the operands separated by spaces). The model
  returns the Resource after the call, the returned string and the lines logged.
\<close>

fun Poll :: "Resource \<Rightarrow> head_result \<Rightarrow> Resource \<times> string \<times> string list" where
  "Poll r (Err e) =
     (r\<lparr>errCount := errCount r + 1\<rparr>, e, [''Error '' @ Resource.url r @ '' '' @ e])"
| "Poll r (Resp st) = (r\<lparr>errCount := 0\<rparr>, st, [])"

text \<open>
  \<^verbatim>\<open>Sleep\<close> pauses for \<^verbatim>\<open>pollInterval + errTimeout*time.Duration(r.errCount)\<close> and then sends
  the Resource on \<^verbatim>\<open>done\<close>. The model returns the Duration handed to \<^verbatim>\<open>time.Sleep\<close> and the
  Resource sent. (\<^verbatim>\<open>time.Sleep\<close> returns at once when the Duration is zero or negative.)
\<close>

definition Sleep :: "Resource \<Rightarrow> Duration \<times> Resource" where
  "Sleep r = (pollInterval + errTimeout * errCount r, r)"

subsection \<open>Poller\<close>

text \<open>
  What a Poller goroutine does that others can see: the lines that Poll logs, the sends
  on \<^verbatim>\<open>status\<close> and the sends on \<^verbatim>\<open>out\<close>.
\<close>

datatype action = Log string | SendStatus State | SendOut Resource

text \<open>
  \<^verbatim>\<open>for r := range in { s := r.Poll(); status <- State{r.url, s}; out <- r }\<close>.
  The argument lists the Resources received on \<^verbatim>\<open>in\<close>, in order, each with the outcome
  that its probe is going to have; the result is the trace of the loop on them.
\<close>

fun Poller :: "(Resource \<times> head_result) list \<Rightarrow> action list" where
  "Poller [] = []"
| "Poller ((r, res) # ins) =
     (case Poll r res of
        (r', s, lg) \<Rightarrow>
          map Log lg @ [SendStatus \<lparr>State.url = Resource.url r', status = s\<rparr>, SendOut r']
            @ Poller ins)"

fun is_SendOut :: "action \<Rightarrow> bool" where
  "is_SendOut (SendOut r) = True"
| "is_SendOut a = False"

subsection \<open>The life of a Resource\<close>

text \<open>
  The Resources that the seeding goroutine of \<^verbatim>\<open>ShareMemory\<close> allocates,
  \<^verbatim>\<open>&Resource{url: url}\<close> for each URL: the field \<^verbatim>\<open>errCount\<close> has Go's zero value.
\<close>

definition seedResources :: "string list \<Rightarrow> Resource list" where
  "seedResources us = map (\<lambda>u. \<lparr>url = u, errCount = 0\<rparr>) us"

text \<open>
  A Resource goes round: a Poller calls Poll on it and sends it on \<^verbatim>\<open>complete\<close>, the main
  loop starts Sleep on it, and Sleep sends it on \<^verbatim>\<open>pending\<close> again. \<open>rounds r rs\<close> is
  the Resource after one such round for each probe outcome of \<open>rs\<close>.
\<close>

fun rounds :: "Resource \<Rightarrow> head_result list \<Rightarrow> Resource" where
  "rounds r [] = r"
| "rounds r (res # rs) = rounds (snd (Sleep (fst (Poll r res)))) rs"

subsection \<open>StateMonitor\<close>

text \<open>
  \<^verbatim>\<open>for k, v := range s\<close> visits every entry of the map once, in an order that Go leaves
  unspecified and that may change from one loop to the next. \<open>range_map s kvs\<close> says
  that \<open>kvs\<close> is one of the sequences in which the loop may visit the entries of \<open>s\<close>.
\<close>

definition range_map :: "(string \<rightharpoonup> string) \<Rightarrow> (string \<times> string) list \<Rightarrow> bool" where
  "range_map s kvs \<longleftrightarrow> distinct (map fst kvs) \<and> map_of kvs = s"

text \<open>
  \<^verbatim>\<open>logState\<close> prints a header and one line for each entry visited. The lines are modelled
  without the date and time that the standard logger puts in front of them.
\<close>

definition entry_line :: "string \<times> string \<Rightarrow> string" where
  "entry_line kv = '' '' @ fst kv @ '' '' @ snd kv"

inductive logState :: "(string \<rightharpoonup> string) \<Rightarrow> string list \<Rightarrow> bool" where
  logState: "range_map s kvs \<Longrightarrow> logState s (''Current state:'' # map entry_line kvs)"

text \<open>
  The two cases of the \<^verbatim>\<open>select\<close> in the StateMonitor goroutine: a tick received from
  \<^verbatim>\<open>ticker.C\<close>, or a State received from \<^verbatim>\<open>updates\<close>.
\<close>

datatype select_case = Tick | Update State

text \<open>
  One iteration of the loop, on the map \<^verbatim>\<open>urlStatus\<close>: the map afterwards and the lines
  printed.
\<close>

inductive StateMonitor_step ::
  "(string \<rightharpoonup> string) \<Rightarrow> select_case \<Rightarrow> (string \<rightharpoonup> string) \<times> string list \<Rightarrow> bool" where
  tick: "logState urlStatus out \<Longrightarrow> StateMonitor_step urlStatus Tick (urlStatus, out)"
| update: "StateMonitor_step urlStatus (Update s) (urlStatus(State.url s \<mapsto> status s), [])"

text \<open>Several iterations in a row; the lines printed add up.\<close>

inductive StateMonitor_run ::
  "(string \<rightharpoonup> string) \<Rightarrow> select_case list \<Rightarrow> (string \<rightharpoonup> string) \<times> string list \<Rightarrow> bool" where
  run_Nil: "StateMonitor_run urlStatus [] (urlStatus, [])"
| run_Cons: "StateMonitor_step urlStatus c (urlStatus1, out1) \<Longrightarrow>
     StateMonitor_run urlStatus1 cs (urlStatus2, out2) \<Longrightarrow>
     StateMonitor_run urlStatus (c # cs) (urlStatus2, out1 @ out2)"

text \<open>
  The map after the StateMonitor has received the States of a list from \<^verbatim>\<open>updates\<close> one
  after the other, with \<^verbatim>\<open>urlStatus[s.url] = s.status\<close> for each.
\<close>

fun record_updates :: "(string \<rightharpoonup> string) \<Rightarrow> State list \<Rightarrow> (string \<rightharpoonup> string)" where
  "record_updates m [] = m"
| "record_updates m (s # ss) = record_updates (m(State.url s \<mapsto> status s)) ss"

subsection \<open>ShareMemory: the goroutines together\<close>

text \<open>
  A Poller goroutine is blocked receiving from \<^verbatim>\<open>in\<close>, or holds the Resource it received:
  about to call Poll on it, blocked sending the State on \<^verbatim>\<open>status\<close>, or blocked sending the
  Resource on \<^verbatim>\<open>out\<close>.
\<close>

datatype poller = Receiving | Polling Resource | Reporting Resource string | Returning Resource

text \<open>
  A goroutine that runs \<^verbatim>\<open>r.Sleep(pending)\<close> is inside \<^verbatim>\<open>time.Sleep\<close> or blocked sending
  the Resource on \<^verbatim>\<open>done\<close>.
\<close>

datatype sleeper = Sleeping Resource | Resubmitting Resource

text \<open>
  The goroutine of \<^verbatim>\<open>ShareMemory\<close> itself, after the call of \<^verbatim>\<open>StateMonitor\<close>: at the test of
  the loop that launches the Pollers, with the loop counter; about to start the goroutine
  that seeds \<^verbatim>\<open>pending\<close>; blocked receiving from \<^verbatim>\<open>complete\<close>; or about to start Sleep on
  the Resource it received.
\<close>

datatype main = Launching nat | Seeding | Completing | Spawning Resource

record system =
  mainG :: main
  pollers :: "poller list"
  seeder :: "string list option"
  sleepers :: "sleeper list"
  urlStatus :: "string \<rightharpoonup> string"
  logged :: "string list"

text \<open>
  The state right after \<^verbatim>\<open>status := StateMonitor(statusInterval)\<close>: no Poller yet, the map
  of the monitor is empty. \<open>seeder\<close> is \<open>None\<close> until the seeding goroutine is
  started, and then holds the URLs it has still to send.
\<close>

definition ShareMemory_init :: system where
  "ShareMemory_init =
     \<lparr>mainG = Launching 0, pollers = [], seeder = None, sleepers = [],
      urlStatus = Map.empty, logged = []\<rparr>"

text \<open>
  One step of one goroutine, for \<open>n\<close> Pollers and the URLs \<open>us\<close>. The channels
  \<^verbatim>\<open>pending\<close>, \<^verbatim>\<open>complete\<close> and \<^verbatim>\<open>updates\<close> are unbuffered: a send and a receive happen
  together, as one step that moves the value from the sender to the receiver; a channel
  never holds a value. A sleep may end, the ticker may fire, and a probe may come back
  with any outcome, at any time. The program passes pointers to Resources, and a
  goroutine does not use a pointer after it has sent it, so every Resource is with one
  goroutine at a time and the model passes the Resource itself.
\<close>

inductive ShareMemory_step :: "nat \<Rightarrow> string list \<Rightarrow> system \<Rightarrow> system \<Rightarrow> bool" where
  launch: "mainG s = Launching i \<Longrightarrow> i < n \<Longrightarrow>
     ShareMemory_step n us s (s\<lparr>mainG := Launching (Suc i), pollers := pollers s @ [Receiving]\<rparr>)"
| launched: "mainG s = Launching i \<Longrightarrow> \<not> i < n \<Longrightarrow>
     ShareMemory_step n us s (s\<lparr>mainG := Seeding\<rparr>)"
| seed: "mainG s = Seeding \<Longrightarrow>
     ShareMemory_step n us s (s\<lparr>mainG := Completing, seeder := Some us\<rparr>)"
| first_send: "seeder s = Some (u # us') \<Longrightarrow> i < length (pollers s) \<Longrightarrow>
     pollers s ! i = Receiving \<Longrightarrow>
     ShareMemory_step n us s
       (s\<lparr>seeder := Some us', pollers := (pollers s)[i := Polling \<lparr>url = u, errCount = 0\<rparr>]\<rparr>)"
| poll: "i < length (pollers s) \<Longrightarrow> pollers s ! i = Polling r \<Longrightarrow>
     Poll r res = (r', txt, lg) \<Longrightarrow>
     ShareMemory_step n us s
       (s\<lparr>pollers := (pollers s)[i := Reporting r' txt], logged := logged s @ lg\<rparr>)"
| report: "i < length (pollers s) \<Longrightarrow> pollers s ! i = Reporting r txt \<Longrightarrow>
     StateMonitor_step (urlStatus s) (Update \<lparr>State.url = Resource.url r, status = txt\<rparr>) (t, out) \<Longrightarrow>
     ShareMemory_step n us s
       (s\<lparr>pollers := (pollers s)[i := Returning r], urlStatus := t, logged := logged s @ out\<rparr>)"
| tick: "StateMonitor_step (urlStatus s) Tick (t, out) \<Longrightarrow>
     ShareMemory_step n us s (s\<lparr>urlStatus := t, logged := logged s @ out\<rparr>)"
| complete: "i < length (pollers s) \<Longrightarrow> pollers s ! i = Returning r \<Longrightarrow>
     mainG s = Completing \<Longrightarrow>
     ShareMemory_step n us s (s\<lparr>pollers := (pollers s)[i := Receiving], mainG := Spawning r\<rparr>)"
| spawn: "mainG s = Spawning r \<Longrightarrow>
     ShareMemory_step n us s (s\<lparr>mainG := Completing, sleepers := sleepers s @ [Sleeping r]\<rparr>)"
| wake: "j < length (sleepers s) \<Longrightarrow> sleepers s ! j = Sleeping r \<Longrightarrow>
     ShareMemory_step n us s (s\<lparr>sleepers := (sleepers s)[j := Resubmitting (snd (Sleep r))]\<rparr>)"
| resubmit: "j < length (sleepers s) \<Longrightarrow> sleepers s ! j = Resubmitting r \<Longrightarrow>
     i < length (pollers s) \<Longrightarrow> pollers s ! i = Receiving \<Longrightarrow>
     ShareMemory_step n us s
       (s\<lparr>sleepers := take j (sleepers s) @ drop (Suc j) (sleepers s),
          pollers := (pollers s)[i := Polling r]\<rparr>)"

text \<open>The states of an execution: those that steps reach from the initial state.\<close>

inductive ShareMemory_reach :: "nat \<Rightarrow> string list \<Rightarrow> system \<Rightarrow> bool" where
  reach_init: "ShareMemory_reach n us ShareMemory_init"
| reach_step: "ShareMemory_reach n us s \<Longrightarrow> ShareMemory_step n us s s' \<Longrightarrow>
     ShareMemory_reach n us s'"

text \<open>The Resources in flight: those that a Poller holds.\<close>

fun holds :: "poller \<Rightarrow> Resource list" where
  "holds Receiving = []"
| "holds (Polling r) = [r]"
| "holds (Reporting r s) = [r]"
| "holds (Returning r) = [r]"

definition in_flight :: "system \<Rightarrow> Resource list" where
  "in_flight s = concat (map holds (pollers s))"

text \<open>
  Every Resource is in one place: in flight, with the main goroutine between its receive
  from \<^verbatim>\<open>complete\<close> and the start of Sleep, with a Sleep goroutine, or not allocated yet
  (one for each URL that the seeding goroutine has still to send). No Resource is inside
  a channel.
\<close>

definition accounted :: "string list \<Rightarrow> system \<Rightarrow> bool" where
  "accounted us s \<longleftrightarrow>
     length (in_flight s)
       + (case mainG s of Spawning r \<Rightarrow> 1 | _ \<Rightarrow> 0)
       + length (sleepers s)
       + (case seeder s of None \<Rightarrow> length us | Some rest \<Rightarrow> length rest)
     = length us"

section \<open>Poll\<close>

text \<open>
  C1. A call of Poll has one of two outcomes, decided by the probe. When the probe
  succeeds, the error counter of the Resource becomes 0 and the returned text is the
  status line of the response. When the probe fails, the counter is incremented by 1
  (Go's \<^verbatim>\<open>r.errCount++\<close>) and the returned text is the description of the error. The
  URL of the Resource is the same afterwards in both cases.
\<close>

theorem Poll_outcomes:
  "((\<exists>st. res = Resp st \<and> Poll r res = (r\<lparr>errCount := 0\<rparr>, st, []))
      \<or> (\<exists>e. res = Err e
            \<and> Poll r res = (r\<lparr>errCount := errCount r + 1\<rparr>, e,
                             [''Error '' @ Resource.url r @ '' '' @ e])))
   \<and> errCount (fst (Poll r (Resp st))) = 0
   \<and> fst (snd (Poll r (Resp st))) = st
   \<and> errCount (fst (Poll r (Err e))) = errCount r + 1
   \<and> fst (snd (Poll r (Err e))) = e
   \<and> Resource.url (fst (Poll r res)) = Resource.url r"
  by (cases res) simp_all

section \<open>Sleep\<close>

lemma rounds_replicate_Err:
  "errCount (rounds r (replicate n (Err e))) = errCount r + of_nat n"
proof (induction n arbitrary: r)
  case 0
  show ?case by simp
next
  case (Suc n)
  show ?case
    by (simp add: Suc.IH Sleep_def)
qed

lemma sint_below_max64: "sint (w :: 64 word) \<le> 9223372036854775807"
  using sint_lt [of w] by simp

lemma stb_add_right:
  "signed_take_bit n (a + signed_take_bit n (x::int)) = signed_take_bit n (a + x)"
  by (metis signed_take_bit_add signed_take_bit_signed_take_bit min.idem)

lemma sint_Sleep_delay:
  "sint (fst (Sleep r))
     = (60000000000 + 10000000000 * sint (errCount r) + 2 ^ 63) mod 2 ^ 64 - 2 ^ 63"
proof -
  let ?k = "sint (errCount r)"
  have "sint (errTimeout * errCount r) = signed_take_bit 63 (10000000000 * ?k)"
    by (simp add: errTimeout_def Second_def sint_word_ariths)
  then have "sint (pollInterval + errTimeout * errCount r)
      = signed_take_bit 63 (60000000000 + signed_take_bit 63 (10000000000 * ?k))"
    by (simp add: pollInterval_def Second_def sint_word_ariths)
  also have "\<dots> = signed_take_bit 63 (60000000000 + 10000000000 * ?k)"
    by (rule stb_add_right)
  also have "\<dots> = (60000000000 + 10000000000 * ?k + 2 ^ 63) mod 2 ^ 64 - 2 ^ 63"
    by (simp add: signed_take_bit_eq_take_bit_shift take_bit_eq_mod)
  finally show ?thesis by (simp add: Sleep_def)
qed

text \<open>
  C2, as the code has it. For every Resource whose error counter \<open>k\<close> is between 0 and
  922337197, the Duration that Sleep waits before it sends the Resource back is
  \<open>pollInterval + errTimeout * k\<close> nanoseconds, with \<open>pollInterval\<close> 60 seconds and
  \<open>errTimeout\<close> 10 seconds; and for a Resource whose last probe succeeded the
  Duration is \<open>pollInterval\<close> exactly. (From 922337198 on, the sum does not fit the 64
  bits of a Duration.)
\<close>

theorem Sleep_delay_bounded:
  "(0 \<le> sint (errCount r) \<and> sint (errCount r) \<le> 922337197 \<longrightarrow>
      sint (fst (Sleep r)) = sint pollInterval + sint errTimeout * sint (errCount r))
   \<and> sint pollInterval = 60000000000 \<and> sint errTimeout = 10000000000
   \<and> fst (Sleep (fst (Poll r (Resp st)))) = pollInterval"
proof (intro conjI impI)
  assume a: "0 \<le> sint (errCount r) \<and> sint (errCount r) \<le> 922337197"
  let ?k = "sint (errCount r)"
  have m: "sint (errTimeout * errCount r) = 10000000000 * ?k"
    using a by (simp add: errTimeout_def Second_def sint_word_ariths signed_take_bit_int_eq_self)
  have "sint (pollInterval + errTimeout * errCount r) = 60000000000 + 10000000000 * ?k"
    using a m by (simp add: pollInterval_def Second_def sint_word_ariths signed_take_bit_int_eq_self)
  then show "sint (fst (Sleep r)) = sint pollInterval + sint errTimeout * sint (errCount r)"
    by (simp add: Sleep_def pollInterval_def errTimeout_def Second_def)
qed (simp_all add: Sleep_def pollInterval_def errTimeout_def Second_def)

theorem Sleep_delay_bounded_witness:
  "0 \<le> sint (2 :: 64 word) \<and> sint (2 :: 64 word) \<le> 922337197
   \<and> sint (fst (Sleep \<lparr>url = ''http://golang.org/'', errCount = 2\<rparr>)) = 80000000000"
  using Sleep_delay_bounded [of "\<lparr>url = ''http://golang.org/'', errCount = 2\<rparr>"]
  by simp

text \<open>
  The claim C2 without the bound fails: at the error count 922337198, which a Resource
  has after as many rounds with a failed probe, the Duration is not
  \<open>pollInterval + errTimeout * 922337198\<close>, it is negative.
\<close>

theorem Sleep_delay_counterexample:
  "0 \<le> sint (errCount \<lparr>url = ''http://golang.org/'', errCount = 922337198\<rparr>)
   \<and> sint (fst (Sleep \<lparr>url = ''http://golang.org/'', errCount = 922337198\<rparr>))
       \<noteq> sint pollInterval
           + sint errTimeout * sint (errCount \<lparr>url = ''http://golang.org/'', errCount = 922337198\<rparr>)
   \<and> sint (fst (Sleep \<lparr>url = ''http://golang.org/'', errCount = 922337198\<rparr>))
       = - 9223372033709551616
   \<and> errCount (rounds \<lparr>url = ''http://golang.org/'', errCount = 0\<rparr>
         (replicate 922337198 (Err ''timeout''))) = 922337198"
proof -
  have "errCount (rounds \<lparr>url = ''http://golang.org/'', errCount = 0\<rparr>
         (replicate 922337198 (Err ''timeout''))) = of_nat 922337198"
    by (simp only: rounds_replicate_Err Resource.simps add_0)
  also have "\<dots> = (922337198 :: 64 word)"
    by (simp only: of_nat_numeral)
  finally have "errCount (rounds \<lparr>url = ''http://golang.org/'', errCount = 0\<rparr>
         (replicate 922337198 (Err ''timeout''))) = 922337198" .
  moreover have "0 \<le> sint (errCount \<lparr>url = ''http://golang.org/'', errCount = 922337198\<rparr>)
   \<and> sint (fst (Sleep \<lparr>url = ''http://golang.org/'', errCount = 922337198\<rparr>))
       \<noteq> sint pollInterval
           + sint errTimeout * sint (errCount \<lparr>url = ''http://golang.org/'', errCount = 922337198\<rparr>)
   \<and> sint (fst (Sleep \<lparr>url = ''http://golang.org/'', errCount = 922337198\<rparr>))
       = - 9223372033709551616"
    by (simp add: Sleep_def pollInterval_def errTimeout_def Second_def)
  ultimately show ?thesis by blast
qed

text \<open>
  C10. The Duration of Sleep is computed in signed 64-bit arithmetic: it is
  \<open>60000000000 + 10000000000 * errCount\<close> wrapped modulo \<open>2^64\<close> into the signed range.
  For every error count with \<open>errTimeout * errCount\<close> above \<open>2^63 - 1\<close> nanoseconds the
  Duration differs from the unbounded sum; there is a non-negative error count whose
  Duration is negative; and the Duration is not monotone in the error count.
\<close>

theorem Sleep_delay_wraps:
  "sint (fst (Sleep r))
     = (60000000000 + 10000000000 * sint (errCount r) + 2 ^ 63) mod 2 ^ 64 - 2 ^ 63
   \<and> (2 ^ 63 - 1 < 10000000000 * sint (errCount r) \<longrightarrow>
        sint (fst (Sleep r)) \<noteq> 60000000000 + 10000000000 * sint (errCount r))
   \<and> (\<exists>r'. 0 \<le> sint (errCount r') \<and> sint (fst (Sleep r')) < 0)
   \<and> (\<exists>r1 r2. 0 \<le> sint (errCount r1) \<and> sint (errCount r1) \<le> sint (errCount r2)
         \<and> sint (fst (Sleep r2)) < sint (fst (Sleep r1)))"
proof (intro conjI impI)
  show "sint (fst (Sleep r))
     = (60000000000 + 10000000000 * sint (errCount r) + 2 ^ 63) mod 2 ^ 64 - 2 ^ 63"
    by (rule sint_Sleep_delay)
next
  assume "2 ^ 63 - 1 < 10000000000 * sint (errCount r)"
  then show "sint (fst (Sleep r)) \<noteq> 60000000000 + 10000000000 * sint (errCount r)"
    using sint_below_max64 [of "fst (Sleep r)"] by simp
next
  let ?r = "\<lparr>url = ''http://golang.org/'', errCount = 922337198\<rparr>"
  have "0 \<le> sint (errCount ?r) \<and> sint (fst (Sleep ?r)) < 0"
    by (simp add: Sleep_def pollInterval_def errTimeout_def Second_def)
  then show "\<exists>r'. 0 \<le> sint (errCount r') \<and> sint (fst (Sleep r')) < 0" by blast
next
  let ?r1 = "\<lparr>url = ''http://golang.org/'', errCount = 0\<rparr>"
  let ?r2 = "\<lparr>url = ''http://golang.org/'', errCount = 922337198\<rparr>"
  have "0 \<le> sint (errCount ?r1) \<and> sint (errCount ?r1) \<le> sint (errCount ?r2)
         \<and> sint (fst (Sleep ?r2)) < sint (fst (Sleep ?r1))"
    by (simp add: Sleep_def pollInterval_def errTimeout_def Second_def)
  then show "\<exists>r1 r2. 0 \<le> sint (errCount r1) \<and> sint (errCount r1) \<le> sint (errCount r2)
         \<and> sint (fst (Sleep r2)) < sint (fst (Sleep r1))" by blast
qed

theorem Sleep_delay_wraps_witness:
  "2 ^ 63 - 1 < 10000000000 * sint (922337204 :: 64 word)
   \<and> sint (fst (Sleep \<lparr>url = ''http://golang.org/'', errCount = 922337204\<rparr>))
       = - 9223371973709551616
   \<and> sint (fst (Sleep \<lparr>url = ''http://golang.org/'', errCount = 922337204\<rparr>))
       \<noteq> 60000000000 + 10000000000 * sint (922337204 :: 64 word)"
  using Sleep_delay_wraps [of "\<lparr>url = ''http://golang.org/'', errCount = 922337204\<rparr>"]
  by simp

section \<open>The error counter over the life of a Resource\<close>

lemma Poll_errCount_cases:
  "errCount (fst (Poll r res)) = 0 \<or> errCount (fst (Poll r res)) = errCount r + 1"
  by (cases res) simp_all

lemma unat_Poll_le: "unat (errCount (fst (Poll r res))) \<le> unat (errCount r) + 1"
proof (cases res)
  case (Err e)
  have "unat (errCount r + 1) \<le> unat (errCount r) + 1"
    by (simp add: unat_word_ariths) 
  with Err show ?thesis by simp
qed simp

lemma unat_rounds_le: "unat (errCount (rounds r rs)) \<le> unat (errCount r) + length rs"
proof (induction rs arbitrary: r)
  case Nil
  show ?case by simp
next
  case (Cons res rs)
  have "unat (errCount (rounds r (res # rs)))
      \<le> unat (errCount (fst (Poll r res))) + length rs"
    using Cons.IH [of "fst (Poll r res)"] by (simp add: Sleep_def)
  also have "\<dots> \<le> unat (errCount r) + 1 + length rs"
    using unat_Poll_le [of r res] by simp
  finally show ?case by simp
qed

lemma sint_nonneg_of_unat:
  assumes "unat (w :: 64 word) < 2 ^ 63"
  shows "0 \<le> sint w"
proof -
  have "int (unat w) < int (2 ^ 63)"
    using assms by (simp only: of_nat_less_iff)
  then have u: "uint w < 2 ^ 63"
    by (simp only: uint_nat of_nat_power of_nat_numeral)
  have "sint w = signed_take_bit 63 (uint w)"
    by (simp add: sint_uint)
  also have "\<dots> = uint w"
  proof (rule signed_take_bit_int_eq_self)
    have "- (2 ^ 63) \<le> (0::int)" by simp
    also have "(0::int) \<le> uint w" by simp
    finally show "- (2 ^ 63) \<le> uint w" .
    show "uint w < 2 ^ 63" by (rule u)
  qed
  finally show ?thesis by simp
qed

text \<open>
  C6, as the code has it. Every Resource is created with the error counter 0; Poll
  either resets the counter to 0 or adds 1 to it, in Go's 64-bit \<^verbatim>\<open>int\<close>; Sleep leaves
  the Resource as it is. So a Poll keeps the counter non-negative whenever the counter
  is below \<open>2^63 - 1\<close> before it, and the counter of a Resource is non-negative
  throughout its first \<open>2^63 - 1\<close> rounds of Poll and Sleep.
\<close>

theorem errCount_nonneg_bounded:
  "(r \<in> set (seedResources us) \<longrightarrow> errCount r = 0)
   \<and> (errCount (fst (Poll r res)) = 0 \<or> errCount (fst (Poll r res)) = errCount r + 1)
   \<and> snd (Sleep r) = r
   \<and> (0 \<le> sint (errCount r) \<and> sint (errCount r) < 2 ^ 63 - 1 \<longrightarrow>
        0 \<le> sint (errCount (fst (Poll r res))))
   \<and> (r \<in> set (seedResources us) \<and> length rs < 2 ^ 63 \<longrightarrow>
        0 \<le> sint (errCount (rounds r rs)))"
proof (intro conjI impI)
  show "errCount (fst (Poll r res)) = 0 \<or> errCount (fst (Poll r res)) = errCount r + 1"
    by (rule Poll_errCount_cases)
next
  assume a: "0 \<le> sint (errCount r) \<and> sint (errCount r) < 2 ^ 63 - 1"
  show "0 \<le> sint (errCount (fst (Poll r res)))"
  proof (cases res)
    case (Resp st)
    then show ?thesis by simp
  next
    case (Err e)
    have "sint (errCount r + 1) = sint (errCount r) + 1"
      using a by (simp add: sint_word_ariths signed_take_bit_int_eq_self)
    with a Err show ?thesis by simp
  qed
next
  assume a: "r \<in> set (seedResources us) \<and> length rs < 2 ^ 63"
  then have "errCount r = 0"
    by (auto simp: seedResources_def)
  then have "unat (errCount (rounds r rs)) \<le> length rs"
    using unat_rounds_le [of r rs] by simp
  with a have "unat (errCount (rounds r rs)) < 2 ^ 63"
    by (blast intro: le_less_trans)
  then show "0 \<le> sint (errCount (rounds r rs))"
    by (rule sint_nonneg_of_unat)
qed (auto simp: seedResources_def Sleep_def)

theorem errCount_nonneg_bounded_witness:
  "\<lparr>url = ''http://golang.org/'', errCount = 0\<rparr> \<in> set (seedResources urls)
   \<and> 0 \<le> sint (errCount \<lparr>url = ''http://golang.org/'', errCount = 0\<rparr>)
   \<and> sint (errCount \<lparr>url = ''http://golang.org/'', errCount = 0\<rparr>) < 2 ^ 63 - 1
   \<and> length [Err ''timeout'', Err ''timeout'', Resp ''200 OK'', Err ''refused''] < 2 ^ 63
   \<and> 0 \<le> sint (errCount (fst (Poll \<lparr>url = ''http://golang.org/'', errCount = 0\<rparr> (Err ''timeout''))))
   \<and> 0 \<le> sint (errCount (rounds \<lparr>url = ''http://golang.org/'', errCount = 0\<rparr>
             [Err ''timeout'', Err ''timeout'', Resp ''200 OK'', Err ''refused'']))
   \<and> errCount (rounds \<lparr>url = ''http://golang.org/'', errCount = 0\<rparr>
             [Err ''timeout'', Err ''timeout'', Resp ''200 OK'', Err ''refused'']) = 1"
  using errCount_nonneg_bounded [of "\<lparr>url = ''http://golang.org/'', errCount = 0\<rparr>" urls "Err ''timeout''"
      "[Err ''timeout'', Err ''timeout'', Resp ''200 OK'', Err ''refused'']"]
  by (simp add: seedResources_def urls_def Sleep_def)

text \<open>
  The claim C6 without the bound fails: a failed probe on a Resource whose counter is
  \<open>2^63 - 1\<close> leaves the counter negative, and the counter of a Resource that the
  program created is negative after \<open>2^63\<close> rounds with a failed probe.
\<close>

theorem errCount_wraps_negative:
  "0 \<le> sint (errCount \<lparr>url = ''http://golang.org/'', errCount = 9223372036854775807\<rparr>)
   \<and> sint (errCount (fst (Poll \<lparr>url = ''http://golang.org/'', errCount = 9223372036854775807\<rparr>
         (Err ''timeout'')))) < 0
   \<and> \<lparr>url = ''http://golang.org/'', errCount = 0\<rparr> \<in> set (seedResources urls)
   \<and> sint (errCount (rounds \<lparr>url = ''http://golang.org/'', errCount = 0\<rparr>
         (replicate (2 ^ 63) (Err ''timeout'')))) < 0"
proof -
  have "errCount (rounds \<lparr>url = ''http://golang.org/'', errCount = 0\<rparr>
         (replicate (2 ^ 63) (Err ''timeout''))) = of_nat (2 ^ 63)"
    by (simp only: rounds_replicate_Err Resource.simps add_0)
  also have "\<dots> = (2 ^ 63 :: 64 word)"
    by (simp only: of_nat_power of_nat_numeral)
  finally have "sint (errCount (rounds \<lparr>url = ''http://golang.org/'', errCount = 0\<rparr>
         (replicate (2 ^ 63) (Err ''timeout'')))) < 0"
    by simp
  moreover have "\<lparr>url = ''http://golang.org/'', errCount = 0\<rparr> \<in> set (seedResources urls)"
    by (simp add: seedResources_def urls_def)
  ultimately show ?thesis by simp
qed

section \<open>Poller\<close>

text \<open>
  C7. A failed probe does not leave the Poller as an error. Poll returns a string for
  every outcome of the probe: the status line of the response, or the description of
  the error. The Poller loop that meets a failed probe logs it, sends the State that
  carries the description, sends the Resource on, and goes on with the Resources that
  follow: for every sequence of Resources received and every outcome of their probes,
  each Resource received is sent on \<^verbatim>\<open>out\<close>, in order.
\<close>

theorem Poller_total:
  "fst (snd (Poll r res)) = (case res of Resp st \<Rightarrow> st | Err e \<Rightarrow> e)
   \<and> Poller (xs @ (r, Err e) # ys) =
       Poller xs
       @ [Log (''Error '' @ Resource.url r @ '' '' @ e),
          SendStatus \<lparr>State.url = Resource.url r, status = e\<rparr>,
          SendOut (r\<lparr>errCount := errCount r + 1\<rparr>)]
       @ Poller ys
   \<and> map (\<lambda>a. case a of SendOut r' \<Rightarrow> r') (filter is_SendOut (Poller ins))
       = map (\<lambda>(r, res). fst (Poll r res)) ins
   \<and> length (filter is_SendOut (Poller ins)) = length ins"
proof (intro conjI)
  show "fst (snd (Poll r res)) = (case res of Resp st \<Rightarrow> st | Err e \<Rightarrow> e)"
    by (cases res) simp_all
next
  have app: "Poller (as @ bs) = Poller as @ Poller bs" for as bs
    by (induction as) (auto split: prod.splits)
  show "Poller (xs @ (r, Err e) # ys) =
       Poller xs
       @ [Log (''Error '' @ Resource.url r @ '' '' @ e),
          SendStatus \<lparr>State.url = Resource.url r, status = e\<rparr>,
          SendOut (r\<lparr>errCount := errCount r + 1\<rparr>)]
       @ Poller ys"
    by (simp add: app)
next
  have lg: "filter is_SendOut (map Log l) = []" for l
    by (induction l) simp_all
  show m: "map (\<lambda>a. case a of SendOut r' \<Rightarrow> r') (filter is_SendOut (Poller ins))
       = map (\<lambda>(r, res). fst (Poll r res)) ins"
    by (induction ins) (auto simp: lg split: prod.splits)
  show "length (filter is_SendOut (Poller ins)) = length ins"
    using arg_cong [OF m, of length] by simp
qed

section \<open>StateMonitor\<close>

lemma range_map_entries: "range_map t kvs \<Longrightarrow> (k, v) \<in> set kvs \<longleftrightarrow> t k = Some v"
  by (auto simp: range_map_def)

lemma range_map_distinct: "range_map t kvs \<Longrightarrow> distinct kvs"
  by (simp add: range_map_def distinct_map)

lemma range_map_mset:
  assumes "range_map t kvs1" "range_map t kvs2"
  shows "mset kvs1 = mset kvs2"
proof -
  have "set kvs1 = set kvs2"
    using assms by (auto simp: range_map_entries)
  moreover have "distinct kvs1" "distinct kvs2"
    using assms by (simp_all add: range_map_distinct)
  ultimately show ?thesis
    by (simp add: set_eq_iff_mset_eq_distinct)
qed

lemma range_map_exists:
  assumes "finite (dom t)"
  shows "\<exists>kvs. range_map t kvs"
proof -
  obtain ks where ks: "set ks = dom t" "distinct ks"
    using finite_distinct_list [OF assms] by blast
  let ?kvs = "map (\<lambda>k. (k, the (t k))) ks"
  have "map fst ?kvs = ks"
    by (induction ks) simp_all
  moreover have "map_of ?kvs = t"
  proof
    fix k
    have "map_of ?kvs k = (if k \<in> dom t then Some (the (t k)) else None)"
      using ks(1) by (simp add: map_of_map_restrict restrict_map_def)
    then show "map_of ?kvs k = t k"
      by (cases "t k") (simp_all add: domIff)
  qed
  ultimately have "range_map t ?kvs"
    using ks(2) by (simp add: range_map_def)
  then show ?thesis by blast
qed

lemma logState_mset:
  assumes "logState t out1" "logState t out2"
  shows "mset out1 = mset out2"
proof -
  obtain kvs1 where 1: "range_map t kvs1" "out1 = ''Current state:'' # map entry_line kvs1"
    using assms(1) by (auto simp: logState.simps)
  obtain kvs2 where 2: "range_map t kvs2" "out2 = ''Current state:'' # map entry_line kvs2"
    using assms(2) by (auto simp: logState.simps)
  have "mset (map entry_line kvs1) = mset (map entry_line kvs2)"
    using arg_cong [OF range_map_mset [OF 1(1) 2(1)], of "image_mset entry_line"] by simp
  then show ?thesis
    by (simp add: 1(2) 2(2))
qed

lemma step_Tick_iff:
  "StateMonitor_step t Tick (t', out) \<longleftrightarrow> t' = t \<and> logState t out"
  by (auto simp: StateMonitor_step.simps)

lemma step_Update_iff:
  "StateMonitor_step t (Update s) (t', out) \<longleftrightarrow> t' = t(State.url s \<mapsto> status s) \<and> out = []"
  by (auto simp: StateMonitor_step.simps)

lemma map_entry_line:
  "map entry_line kvs = map (\<lambda>(k, v). '' '' @ k @ '' '' @ v) kvs"
  by (simp add: entry_line_def case_prod_beta)

lemma logState_iff:
  "logState t out \<longleftrightarrow>
     (\<exists>kvs. distinct (map fst kvs) \<and> map_of kvs = t
        \<and> out = ''Current state:'' # map (\<lambda>(k, v). '' '' @ k @ '' '' @ v) kvs)"
  by (auto simp: logState.simps range_map_def map_entry_line)

text \<open>
  C3. The loop of the StateMonitor has two transitions, one for each case of its
  \<^verbatim>\<open>select\<close>. When a State arrives, the map is updated so that the URL of the State maps
  to its status, and nothing is printed. When the ticker fires, a snapshot of the map is
  printed and the map is left as it is: the snapshot is the header \<^verbatim>\<open>Current state:\<close>
  followed by one line for each entry of the map and for nothing else, the line of the
  entry with key \<open>k\<close> and value \<open>v\<close> being a space, \<open>k\<close>, a space and \<open>v\<close>. The update
  is always possible; the tick may print the entries in any order, and is possible on
  every finite map.
\<close>

theorem StateMonitor_two_transitions:
  "(StateMonitor_step t c (t', out) \<longleftrightarrow>
      (c = Tick \<and> t' = t
         \<and> (\<exists>kvs. distinct (map fst kvs) \<and> map_of kvs = t
               \<and> out = ''Current state:'' # map (\<lambda>(k, v). '' '' @ k @ '' '' @ v) kvs))
      \<or> (\<exists>s. c = Update s \<and> t' = t(State.url s \<mapsto> status s) \<and> out = []))
   \<and> (StateMonitor_step t (Update s) (t1, out1) \<longrightarrow>
        t1 = t(State.url s \<mapsto> status s) \<and> t1 (State.url s) = Some (status s) \<and> out1 = [])
   \<and> (StateMonitor_step t Tick (t2, out2) \<longrightarrow>
        t2 = t
        \<and> (\<exists>kvs. out2 = ''Current state:'' # map (\<lambda>(k, v). '' '' @ k @ '' '' @ v) kvs
              \<and> distinct (map fst kvs)
              \<and> (\<forall>k v. (k, v) \<in> set kvs \<longleftrightarrow> t k = Some v))
        \<and> hd out2 = ''Current state:''
        \<and> set (tl out2) = {'' '' @ k @ '' '' @ v |k v. t k = Some v}
        \<and> length out2 = Suc (card (dom t)))
   \<and> (\<exists>t3. StateMonitor_step t (Update s) (t3, []))
   \<and> (distinct (map fst kvs0) \<and> map_of kvs0 = t \<longrightarrow>
        StateMonitor_step t Tick
          (t, ''Current state:'' # map (\<lambda>(k, v). '' '' @ k @ '' '' @ v) kvs0))
   \<and> (finite (dom t) \<longrightarrow> (\<exists>out3. StateMonitor_step t Tick (t, out3)))"
proof (intro conjI impI)
  show "StateMonitor_step t c (t', out) \<longleftrightarrow>
      (c = Tick \<and> t' = t
         \<and> (\<exists>kvs. distinct (map fst kvs) \<and> map_of kvs = t
               \<and> out = ''Current state:'' # map (\<lambda>(k, v). '' '' @ k @ '' '' @ v) kvs))
      \<or> (\<exists>s. c = Update s \<and> t' = t(State.url s \<mapsto> status s) \<and> out = [])"
    by (cases c) (auto simp: step_Tick_iff step_Update_iff logState_iff)
next
  assume "StateMonitor_step t (Update s) (t1, out1)"
  then show "t1 = t(State.url s \<mapsto> status s)" and "t1 (State.url s) = Some (status s)"
    and "out1 = []"
    by (simp_all add: step_Update_iff)
next
  assume a: "StateMonitor_step t Tick (t2, out2)"
  then show "t2 = t" by (simp add: step_Tick_iff)
  from a obtain kvs where d: "distinct (map fst kvs)" and m: "map_of kvs = t"
    and o: "out2 = ''Current state:'' # map (\<lambda>(k, v). '' '' @ k @ '' '' @ v) kvs"
    by (auto simp: step_Tick_iff logState_iff)
  have r: "range_map t kvs"
    using d m by (simp add: range_map_def)
  have e: "(k, v) \<in> set kvs \<longleftrightarrow> t k = Some v" for k v
    using r by (rule range_map_entries)
  show "\<exists>kvs. out2 = ''Current state:'' # map (\<lambda>(k, v). '' '' @ k @ '' '' @ v) kvs
              \<and> distinct (map fst kvs)
              \<and> (\<forall>k v. (k, v) \<in> set kvs \<longleftrightarrow> t k = Some v)"
    using o d e by blast
  show "hd out2 = ''Current state:''"
    by (simp add: o)
  have "set (tl out2) = (\<lambda>(k, v). '' '' @ k @ '' '' @ v) ` set kvs"
    by (simp add: o)
  also have "\<dots> = {'' '' @ k @ '' '' @ v |k v. (k, v) \<in> set kvs}"
    by (auto simp: image_iff)
  also have "\<dots> = {'' '' @ k @ '' '' @ v |k v. t k = Some v}"
    by (simp only: e)
  finally show "set (tl out2) = {'' '' @ k @ '' '' @ v |k v. t k = Some v}" .
  have "dom (map_of kvs) = set (map fst kvs)"
    by (simp add: dom_map_of_conv_image_fst)
  then have "dom t = set (map fst kvs)"
    by (simp only: m)
  then have "card (dom t) = length kvs"
    using d distinct_card [of "map fst kvs"] by simp
  then show "length out2 = Suc (card (dom t))"
    by (simp add: o)
next
  show "\<exists>t3. StateMonitor_step t (Update s) (t3, [])"
    by (blast intro: StateMonitor_step.update)
next
  assume "distinct (map fst kvs0) \<and> map_of kvs0 = t"
  then show "StateMonitor_step t Tick
          (t, ''Current state:'' # map (\<lambda>(k, v). '' '' @ k @ '' '' @ v) kvs0)"
    by (auto simp: step_Tick_iff logState_iff)
next
  assume "finite (dom t)"
  then obtain kvs where "range_map t kvs"
    using range_map_exists by blast
  then show "\<exists>out3. StateMonitor_step t Tick (t, out3)"
    by (blast intro: StateMonitor_step.tick logState.intros)
qed

theorem StateMonitor_two_transitions_witness:
  "StateMonitor_step [''http://golang.org/'' \<mapsto> ''503 Service Unavailable'']
      (Update \<lparr>State.url = ''http://blog.golang.org/'', status = ''200 OK''\<rparr>)
      ([''http://golang.org/'' \<mapsto> ''503 Service Unavailable'',
        ''http://blog.golang.org/'' \<mapsto> ''200 OK''], [])
   \<and> [''http://golang.org/'' \<mapsto> ''503 Service Unavailable'', ''http://blog.golang.org/'' \<mapsto> ''200 OK'']
        ''http://blog.golang.org/'' = Some ''200 OK''
   \<and> distinct (map fst [(''http://blog.golang.org/'', ''200 OK''),
                          (''http://golang.org/'', ''503 Service Unavailable'')])
   \<and> map_of [(''http://blog.golang.org/'', ''200 OK''),
              (''http://golang.org/'', ''503 Service Unavailable'')]
       = [''http://golang.org/'' \<mapsto> ''503 Service Unavailable'', ''http://blog.golang.org/'' \<mapsto> ''200 OK'']
   \<and> finite (dom [''http://golang.org/'' \<mapsto> ''503 Service Unavailable'',
                    ''http://blog.golang.org/'' \<mapsto> ''200 OK''])
   \<and> StateMonitor_step
        [''http://golang.org/'' \<mapsto> ''503 Service Unavailable'', ''http://blog.golang.org/'' \<mapsto> ''200 OK'']
        Tick
        ([''http://golang.org/'' \<mapsto> ''503 Service Unavailable'', ''http://blog.golang.org/'' \<mapsto> ''200 OK''],
         [''Current state:'', '' http://blog.golang.org/ 200 OK'',
          '' http://golang.org/ 503 Service Unavailable''])
   \<and> set (tl [''Current state:'', '' http://blog.golang.org/ 200 OK'',
          '' http://golang.org/ 503 Service Unavailable''])
       = {'' '' @ k @ '' '' @ v |k v.
            [''http://golang.org/'' \<mapsto> ''503 Service Unavailable'',
             ''http://blog.golang.org/'' \<mapsto> ''200 OK''] k = Some v}
   \<and> card (dom [''http://golang.org/'' \<mapsto> ''503 Service Unavailable'',
                  ''http://blog.golang.org/'' \<mapsto> ''200 OK'']) = 2"
proof -
  let ?init = "[''http://golang.org/'' \<mapsto> ''503 Service Unavailable'']"
  let ?s = "\<lparr>State.url = ''http://blog.golang.org/'', status = ''200 OK''\<rparr>"
  let ?t = "[''http://golang.org/'' \<mapsto> ''503 Service Unavailable'', ''http://blog.golang.org/'' \<mapsto> ''200 OK'']"
  let ?kvs = "[(''http://blog.golang.org/'', ''200 OK''),
               (''http://golang.org/'', ''503 Service Unavailable'')]"
  let ?out = "[''Current state:'', '' http://blog.golang.org/ 200 OK'',
          '' http://golang.org/ 503 Service Unavailable'']"
  have u: "StateMonitor_step ?init (Update ?s) (?t, [])"
    using StateMonitor_step.update [of ?init ?s] by simp
  have d: "distinct (map fst ?kvs)" by simp
  have m: "map_of ?kvs = ?t" by simp
  have "StateMonitor_step ?t Tick
      (?t, ''Current state:'' # map (\<lambda>(k, v). '' '' @ k @ '' '' @ v) ?kvs)"
    using d m StateMonitor_two_transitions [of ?t Tick ?t ?out ?s ?t "[]" ?t ?out ?kvs]
    by blast
  then have k: "StateMonitor_step ?t Tick (?t, ?out)"
    by simp
  have f: "finite (dom ?t)" by simp
  have p1: "?t ''http://blog.golang.org/'' = Some ''200 OK''"
    using u StateMonitor_two_transitions [of ?init "Update ?s" ?t "[]" ?s ?t "[]" ?init ?out ?kvs]
    by simp
  have p2: "set (tl ?out) = {'' '' @ k @ '' '' @ v |k v. ?t k = Some v}"
    and p3: "length ?out = Suc (card (dom ?t))"
    using k StateMonitor_two_transitions [of ?t Tick ?t ?out ?s ?t "[]" ?t ?out ?kvs]
    by blast+
  from p3 have p4: "card (dom ?t) = 2" by simp
  show ?thesis
    by (intro conjI) (rule u p1 d m f k p2 p4)+
qed

text \<open>
  C9. Processing one State changes the map at the URL of that State only: every other
  key maps to what it mapped to before, and the key set grows by at most that one key.
\<close>

theorem StateMonitor_update_frame:
  "StateMonitor_step t (Update s) (t', out) \<longrightarrow>
     (\<forall>k. k \<noteq> State.url s \<longrightarrow> t' k = t k)
     \<and> dom t' = insert (State.url s) (dom t)
     \<and> dom t \<subseteq> dom t' \<and> dom t' - dom t \<subseteq> {State.url s}"
  by (auto simp: step_Update_iff)

theorem StateMonitor_update_frame_witness:
  "StateMonitor_step [''http://golang.org/'' \<mapsto> ''200 OK'']
      (Update \<lparr>State.url = ''http://blog.golang.org/'', status = ''404 Not Found''\<rparr>)
      ([''http://golang.org/'' \<mapsto> ''200 OK'', ''http://blog.golang.org/'' \<mapsto> ''404 Not Found''], [])
   \<and> [''http://golang.org/'' \<mapsto> ''200 OK'', ''http://blog.golang.org/'' \<mapsto> ''404 Not Found'']
        ''http://golang.org/'' = [''http://golang.org/'' \<mapsto> ''200 OK''] ''http://golang.org/'' 
   \<and> dom [''http://golang.org/'' \<mapsto> ''200 OK'', ''http://blog.golang.org/'' \<mapsto> ''404 Not Found'']
       = insert ''http://blog.golang.org/'' (dom [''http://golang.org/'' \<mapsto> ''200 OK''])"
proof -
  let ?t = "[''http://golang.org/'' \<mapsto> ''200 OK'']"
  let ?s = "\<lparr>State.url = ''http://blog.golang.org/'', status = ''404 Not Found''\<rparr>"
  let ?t1 = "[''http://golang.org/'' \<mapsto> ''200 OK'', ''http://blog.golang.org/'' \<mapsto> ''404 Not Found'']"
  have u: "StateMonitor_step ?t (Update ?s) (?t1, [])"
    using StateMonitor_step.update [of ?t ?s] by simp
  show ?thesis
    using u StateMonitor_update_frame [of ?t ?s ?t1 "[]"]
    by simp
qed

subsection \<open>Sequences of updates\<close>

lemma run_Nil_iff: "StateMonitor_run t [] (t', out) \<longleftrightarrow> t' = t \<and> out = []"
  by (auto simp: StateMonitor_run.simps [of t "[]"])

lemma run_Cons_iff:
  "StateMonitor_run t (c # cs) (t', out) \<longleftrightarrow>
     (\<exists>t1 out1 out2. StateMonitor_step t c (t1, out1) \<and> StateMonitor_run t1 cs (t', out2)
        \<and> out = out1 @ out2)"
  by (auto simp: StateMonitor_run.simps [of t "c # cs"])

lemma run_updates_iff:
  "StateMonitor_run t (map Update ss) (t', out) \<longleftrightarrow>
     t' = record_updates t ss \<and> out = []"
proof (induction ss arbitrary: t)
  case Nil
  show ?case by (auto simp: run_Nil_iff)
next
  case (Cons s ss)
  show ?case
    by (auto simp: run_Cons_iff step_Update_iff Cons.IH)
qed

lemma record_updates_snoc:
  "record_updates t (ss @ [s]) = (record_updates t ss)(State.url s \<mapsto> status s)"
  by (induction ss arbitrary: t) simp_all

lemma record_updates_lookup:
  "record_updates t ss e =
     (if e \<in> State.url ` set ss
      then Some (status (last (filter (\<lambda>s. State.url s = e) ss))) else t e)"
proof (induction ss rule: rev_induct)
  case Nil
  show ?case by simp
next
  case (snoc s ss)
  show ?case
  proof (cases "State.url s = e")
    case True
    then show ?thesis by (simp add: record_updates_snoc)
  next
    case False
    then show ?thesis using snoc.IH by (auto simp: record_updates_snoc)
  qed
qed

lemma filter_eq_imp_mem:
  assumes "\<forall>e. filter (\<lambda>s. State.url s = e) ss1 = filter (\<lambda>s. State.url s = e) ss2"
  shows "State.url ` set ss1 = State.url ` set ss2"
proof -
  have *: "State.url ` set xs = {e. filter (\<lambda>s. State.url s = e) xs \<noteq> []}" for xs
    by (auto simp: filter_empty_conv)
  have "{e. filter (\<lambda>s. State.url s = e) ss1 \<noteq> []} = {e. filter (\<lambda>s. State.url s = e) ss2 \<noteq> []}"
    using assms by simp
  then show ?thesis by (simp only: *)
qed

lemma record_updates_interleave:
  assumes "\<forall>e. filter (\<lambda>s. State.url s = e) ss1 = filter (\<lambda>s. State.url s = e) ss2"
  shows "record_updates t ss1
       = record_updates t ss2"
proof
  fix e
  have "filter (\<lambda>s. State.url s = e) ss1 = filter (\<lambda>s. State.url s = e) ss2"
    using assms by blast
  moreover have "e \<in> State.url ` set ss1 \<longleftrightarrow> e \<in> State.url ` set ss2"
    using filter_eq_imp_mem [OF assms] by simp
  ultimately show "record_updates t ss1 e
       = record_updates t ss2 e"
    by (simp only: record_updates_lookup)
qed

text \<open>
  C4. After any finite sequence of States, received in order on any initial map, the map
  takes every URL that occurs in the sequence to the status of the last State for that
  URL, and is as before at every other URL. So two sequences that agree on the
  subsequence of States of each URL (any two interleavings of the same per-URL
  sequences) end in the same map; in particular two updates for distinct URLs commute,
  while two updates for the same URL may not.
\<close>

theorem StateMonitor_last_update_wins:
  "(StateMonitor_run t (map Update ss) (t', out) \<and> e \<in> State.url ` set ss \<longrightarrow>
      t' e = Some (status (last (filter (\<lambda>s. State.url s = e) ss))))
   \<and> (StateMonitor_run t (map Update ss) (t', out) \<and> e \<notin> State.url ` set ss \<longrightarrow> t' e = t e)
   \<and> (\<exists>t0. StateMonitor_run t (map Update ss) (t0, []))
   \<and> (StateMonitor_run t (map Update ss1) (t1, out1) \<and> StateMonitor_run t (map Update ss2) (t2, out2)
       \<and> (\<forall>e. filter (\<lambda>s. State.url s = e) ss1 = filter (\<lambda>s. State.url s = e) ss2)
       \<longrightarrow> t1 = t2)
   \<and> (State.url a \<noteq> State.url b \<and> StateMonitor_run t [Update a, Update b] (t3, out3)
       \<and> StateMonitor_run t [Update b, Update a] (t4, out4) \<longrightarrow> t3 = t4)
   \<and> (\<exists>a b t5 t6. State.url a = State.url b \<and> StateMonitor_run t [Update a, Update b] (t5, [])
       \<and> StateMonitor_run t [Update b, Update a] (t6, []) \<and> t5 \<noteq> t6)"
proof (intro conjI impI)
  assume "StateMonitor_run t (map Update ss) (t', out) \<and> e \<in> State.url ` set ss"
  then show "t' e = Some (status (last (filter (\<lambda>s. State.url s = e) ss)))"
    by (simp add: run_updates_iff record_updates_lookup)
next
  assume "StateMonitor_run t (map Update ss) (t', out) \<and> e \<notin> State.url ` set ss"
  then show "t' e = t e"
    by (simp add: run_updates_iff record_updates_lookup)
next
  show "\<exists>t0. StateMonitor_run t (map Update ss) (t0, [])"
    by (simp add: run_updates_iff)
next
  assume "StateMonitor_run t (map Update ss1) (t1, out1) \<and> StateMonitor_run t (map Update ss2) (t2, out2)
       \<and> (\<forall>e. filter (\<lambda>s. State.url s = e) ss1 = filter (\<lambda>s. State.url s = e) ss2)"
  then show "t1 = t2"
    using record_updates_interleave [of ss1 ss2 t] by (simp add: run_updates_iff)
next
  assume a: "State.url a \<noteq> State.url b \<and> StateMonitor_run t [Update a, Update b] (t3, out3)
       \<and> StateMonitor_run t [Update b, Update a] (t4, out4)"
  then have 3: "t3 = t(State.url a \<mapsto> status a, State.url b \<mapsto> status b)"
    and 4: "t4 = t(State.url b \<mapsto> status b, State.url a \<mapsto> status a)"
    using run_updates_iff [of t "[a, b]"] run_updates_iff [of t "[b, a]"] by simp_all
  from a have "State.url a \<noteq> State.url b" by simp
  then show "t3 = t4"
    unfolding 3 4 by (rule fun_upd_twist)
next
  let ?a = "\<lparr>State.url = ''http://golang.org/'', status = ''200 OK''\<rparr>"
  let ?b = "\<lparr>State.url = ''http://golang.org/'', status = ''503 Service Unavailable''\<rparr>"
  let ?t5 = "t(State.url ?a \<mapsto> status ?a, State.url ?b \<mapsto> status ?b)"
  let ?t6 = "t(State.url ?b \<mapsto> status ?b, State.url ?a \<mapsto> status ?a)"
  have "StateMonitor_run t [Update ?a, Update ?b] (?t5, [])"
    using run_updates_iff [of t "[?a, ?b]" ?t5 "[]"] by simp
  moreover have "StateMonitor_run t [Update ?b, Update ?a] (?t6, [])"
    using run_updates_iff [of t "[?b, ?a]" ?t6 "[]"] by simp
  moreover have "?t5 \<noteq> ?t6"
  proof
    assume "?t5 = ?t6"
    then have "?t5 ''http://golang.org/'' = ?t6 ''http://golang.org/''" by (rule arg_cong)
    then show False by simp
  qed
  moreover have "State.url ?a = State.url ?b" by simp
  ultimately show "\<exists>a b t5 t6. State.url a = State.url b \<and> StateMonitor_run t [Update a, Update b] (t5, [])
       \<and> StateMonitor_run t [Update b, Update a] (t6, []) \<and> t5 \<noteq> t6"
    by blast
qed

theorem StateMonitor_last_update_wins_witness:
  "StateMonitor_run Map.empty
      (map Update [\<lparr>State.url = ''http://golang.org/'', status = ''503 Service Unavailable''\<rparr>,
                   \<lparr>State.url = ''http://blog.golang.org/'', status = ''200 OK''\<rparr>,
                   \<lparr>State.url = ''http://golang.org/'', status = ''200 OK''\<rparr>])
      ([''http://golang.org/'' \<mapsto> ''200 OK'', ''http://blog.golang.org/'' \<mapsto> ''200 OK''], [])
   \<and> StateMonitor_run Map.empty
      (map Update [\<lparr>State.url = ''http://blog.golang.org/'', status = ''200 OK''\<rparr>,
                   \<lparr>State.url = ''http://golang.org/'', status = ''503 Service Unavailable''\<rparr>,
                   \<lparr>State.url = ''http://golang.org/'', status = ''200 OK''\<rparr>])
      ([''http://blog.golang.org/'' \<mapsto> ''200 OK'', ''http://golang.org/'' \<mapsto> ''200 OK''], [])
   \<and> ''http://golang.org/'' \<in> State.url ` set
         [\<lparr>State.url = ''http://golang.org/'', status = ''503 Service Unavailable''\<rparr>,
          \<lparr>State.url = ''http://blog.golang.org/'', status = ''200 OK''\<rparr>,
          \<lparr>State.url = ''http://golang.org/'', status = ''200 OK''\<rparr>]
   \<and> [''http://golang.org/'' \<mapsto> ''200 OK'', ''http://blog.golang.org/'' \<mapsto> ''200 OK'']
        ''http://golang.org/'' = Some ''200 OK''
   \<and> [''http://golang.org/'' \<mapsto> ''200 OK'', ''http://blog.golang.org/'' \<mapsto> ''200 OK'']
       = [''http://blog.golang.org/'' \<mapsto> ''200 OK'', ''http://golang.org/'' \<mapsto> ''200 OK'']"
proof -
  let ?a1 = "\<lparr>State.url = ''http://golang.org/'', status = ''503 Service Unavailable''\<rparr>"
  let ?b = "\<lparr>State.url = ''http://blog.golang.org/'', status = ''200 OK''\<rparr>"
  let ?a2 = "\<lparr>State.url = ''http://golang.org/'', status = ''200 OK''\<rparr>"
  let ?t1 = "[''http://golang.org/'' \<mapsto> ''200 OK'', ''http://blog.golang.org/'' \<mapsto> ''200 OK'']"
  let ?t2 = "[''http://blog.golang.org/'' \<mapsto> ''200 OK'', ''http://golang.org/'' \<mapsto> ''200 OK'']"
  have s1: "StateMonitor_step Map.empty (Update ?a1) ([''http://golang.org/'' \<mapsto> ''503 Service Unavailable''], [])"
    using StateMonitor_step.update [of Map.empty ?a1] by simp
  have s2: "StateMonitor_step [''http://golang.org/'' \<mapsto> ''503 Service Unavailable''] (Update ?b)
      ([''http://golang.org/'' \<mapsto> ''503 Service Unavailable'', ''http://blog.golang.org/'' \<mapsto> ''200 OK''], [])"
    using StateMonitor_step.update [of "[''http://golang.org/'' \<mapsto> ''503 Service Unavailable'']" ?b] by simp
  have s3: "StateMonitor_step
      [''http://golang.org/'' \<mapsto> ''503 Service Unavailable'', ''http://blog.golang.org/'' \<mapsto> ''200 OK'']
      (Update ?a2) (?t1, [])"
    using StateMonitor_step.update [of
      "[''http://golang.org/'' \<mapsto> ''503 Service Unavailable'', ''http://blog.golang.org/'' \<mapsto> ''200 OK'']" ?a2]
    by (simp add: fun_upd_twist)
  have r1: "StateMonitor_run Map.empty (map Update [?a1, ?b, ?a2]) (?t1, [])"
    using run_Cons [OF s1 run_Cons [OF s2 run_Cons [OF s3 run_Nil]]] by simp
  have q1: "StateMonitor_step Map.empty (Update ?b) ([''http://blog.golang.org/'' \<mapsto> ''200 OK''], [])"
    using StateMonitor_step.update [of Map.empty ?b] by simp
  have q2: "StateMonitor_step [''http://blog.golang.org/'' \<mapsto> ''200 OK''] (Update ?a1)
      ([''http://blog.golang.org/'' \<mapsto> ''200 OK'', ''http://golang.org/'' \<mapsto> ''503 Service Unavailable''], [])"
    using StateMonitor_step.update [of "[''http://blog.golang.org/'' \<mapsto> ''200 OK'']" ?a1] by simp
  have q3: "StateMonitor_step
      [''http://blog.golang.org/'' \<mapsto> ''200 OK'', ''http://golang.org/'' \<mapsto> ''503 Service Unavailable'']
      (Update ?a2) (?t2, [])"
    using StateMonitor_step.update [of
      "[''http://blog.golang.org/'' \<mapsto> ''200 OK'', ''http://golang.org/'' \<mapsto> ''503 Service Unavailable'']" ?a2]
    by simp
  have r2: "StateMonitor_run Map.empty (map Update [?b, ?a1, ?a2]) (?t2, [])"
    using run_Cons [OF q1 run_Cons [OF q2 run_Cons [OF q3 run_Nil]]] by simp
  have f: "\<forall>e. filter (\<lambda>s. State.url s = e) [?a1, ?b, ?a2] = filter (\<lambda>s. State.url s = e) [?b, ?a1, ?a2]"
    by simp
  have m: "''http://golang.org/'' \<in> State.url ` set [?a1, ?b, ?a2]"
    by simp
  have "?t1 ''http://golang.org/'' = Some (status (last (filter (\<lambda>s. State.url s = ''http://golang.org/'') [?a1, ?b, ?a2])))"
    and "?t1 = ?t2"
    using r1 r2 f m
      StateMonitor_last_update_wins [of Map.empty "[?a1, ?b, ?a2]" ?t1 "[]" "''http://golang.org/''"
        "[?a1, ?b, ?a2]" ?t1 "[]" "[?b, ?a1, ?a2]" ?t2 "[]"]
    by blast+
  then show ?thesis
    using r1 r2 m by simp
qed

subsection \<open>Two ticks in a row\<close>

lemma two_entries_range:
  "range_map [''http://golang.org/'' \<mapsto> ''200 OK'', ''http://blog.golang.org/'' \<mapsto> ''404 Not Found'']
     [(''http://golang.org/'', ''200 OK''), (''http://blog.golang.org/'', ''404 Not Found'')]"
  "range_map [''http://golang.org/'' \<mapsto> ''200 OK'', ''http://blog.golang.org/'' \<mapsto> ''404 Not Found'']
     [(''http://blog.golang.org/'', ''404 Not Found''), (''http://golang.org/'', ''200 OK'')]"
  by (auto simp: range_map_def fun_eq_iff)

lemma two_entries_ticks:
  "StateMonitor_step
      [''http://golang.org/'' \<mapsto> ''200 OK'', ''http://blog.golang.org/'' \<mapsto> ''404 Not Found''] Tick
      ([''http://golang.org/'' \<mapsto> ''200 OK'', ''http://blog.golang.org/'' \<mapsto> ''404 Not Found''],
       [''Current state:'', '' http://golang.org/ 200 OK'', '' http://blog.golang.org/ 404 Not Found''])"
  "StateMonitor_step
      [''http://golang.org/'' \<mapsto> ''200 OK'', ''http://blog.golang.org/'' \<mapsto> ''404 Not Found''] Tick
      ([''http://golang.org/'' \<mapsto> ''200 OK'', ''http://blog.golang.org/'' \<mapsto> ''404 Not Found''],
       [''Current state:'', '' http://blog.golang.org/ 404 Not Found'', '' http://golang.org/ 200 OK''])"
  using logState.intros [OF two_entries_range(1)] logState.intros [OF two_entries_range(2)]
  by (simp_all add: step_Tick_iff entry_line_def)

text \<open>
  C5, as the code has it. Two consecutive ticks with no State in between print
  snapshots of the same map, which neither of them changes: each snapshot is the header
  followed by the same lines, one for each entry of the map, though not always in the
  same order, since the order in which \<^verbatim>\<open>range\<close> visits a map is not fixed.
\<close>

theorem logState_twice_same_entries:
  "StateMonitor_step t Tick (t1, out1) \<and> StateMonitor_step t1 Tick (t2, out2) \<longrightarrow>
     t1 = t \<and> t2 = t \<and> logState t out1 \<and> logState t out2
     \<and> hd out1 = ''Current state:'' \<and> hd out2 = ''Current state:''
     \<and> mset (tl out1) = mset (tl out2) \<and> length out1 = length out2"
proof
  assume a: "StateMonitor_step t Tick (t1, out1) \<and> StateMonitor_step t1 Tick (t2, out2)"
  then have t: "t1 = t" "t2 = t" and l: "logState t out1" "logState t out2"
    by (auto simp: step_Tick_iff)
  have h: "hd out1 = ''Current state:''" "hd out2 = ''Current state:''"
    using l by (auto simp: logState.simps)
  have n: "out1 \<noteq> []" "out2 \<noteq> []"
    using l by (auto simp: logState.simps)
  have m: "mset out1 = mset out2"
    using l by (rule logState_mset)
  then have "mset (hd out1 # tl out1) = mset (hd out2 # tl out2)"
    using n by simp
  then have m': "mset (tl out1) = mset (tl out2)"
    using h by simp
  have "length out1 = length out2"
    using m by (rule mset_eq_length)
  with t l h m' show "t1 = t \<and> t2 = t \<and> logState t out1 \<and> logState t out2
     \<and> hd out1 = ''Current state:'' \<and> hd out2 = ''Current state:''
     \<and> mset (tl out1) = mset (tl out2) \<and> length out1 = length out2"
    by simp
qed

theorem logState_twice_same_entries_witness:
  "StateMonitor_step
      [''http://golang.org/'' \<mapsto> ''200 OK'', ''http://blog.golang.org/'' \<mapsto> ''404 Not Found''] Tick
      ([''http://golang.org/'' \<mapsto> ''200 OK'', ''http://blog.golang.org/'' \<mapsto> ''404 Not Found''],
       [''Current state:'', '' http://golang.org/ 200 OK'', '' http://blog.golang.org/ 404 Not Found''])
   \<and> StateMonitor_step
      [''http://golang.org/'' \<mapsto> ''200 OK'', ''http://blog.golang.org/'' \<mapsto> ''404 Not Found''] Tick
      ([''http://golang.org/'' \<mapsto> ''200 OK'', ''http://blog.golang.org/'' \<mapsto> ''404 Not Found''],
       [''Current state:'', '' http://blog.golang.org/ 404 Not Found'', '' http://golang.org/ 200 OK''])
   \<and> mset [ '' http://golang.org/ 200 OK'', '' http://blog.golang.org/ 404 Not Found'']
       = mset ['' http://blog.golang.org/ 404 Not Found'', '' http://golang.org/ 200 OK'']"
  using two_entries_ticks
    logState_twice_same_entries [of
      "[''http://golang.org/'' \<mapsto> ''200 OK'', ''http://blog.golang.org/'' \<mapsto> ''404 Not Found'']"
      "[''http://golang.org/'' \<mapsto> ''200 OK'', ''http://blog.golang.org/'' \<mapsto> ''404 Not Found'']"
      "[''Current state:'', '' http://golang.org/ 200 OK'', '' http://blog.golang.org/ 404 Not Found'']"
      "[''http://golang.org/'' \<mapsto> ''200 OK'', ''http://blog.golang.org/'' \<mapsto> ''404 Not Found'']"
      "[''Current state:'', '' http://blog.golang.org/ 404 Not Found'', '' http://golang.org/ 200 OK'']"]
  by simp

text \<open>
  The claim C5 read as equality of the printed snapshots fails: on a map with two entries
  the first tick may print them in one order and the second tick in the other.
\<close>

theorem logState_twice_differs:
  "StateMonitor_step
      [''http://golang.org/'' \<mapsto> ''200 OK'', ''http://blog.golang.org/'' \<mapsto> ''404 Not Found''] Tick
      ([''http://golang.org/'' \<mapsto> ''200 OK'', ''http://blog.golang.org/'' \<mapsto> ''404 Not Found''],
       [''Current state:'', '' http://golang.org/ 200 OK'', '' http://blog.golang.org/ 404 Not Found''])
   \<and> StateMonitor_step
      [''http://golang.org/'' \<mapsto> ''200 OK'', ''http://blog.golang.org/'' \<mapsto> ''404 Not Found''] Tick
      ([''http://golang.org/'' \<mapsto> ''200 OK'', ''http://blog.golang.org/'' \<mapsto> ''404 Not Found''],
       [''Current state:'', '' http://blog.golang.org/ 404 Not Found'', '' http://golang.org/ 200 OK''])
   \<and> [''Current state:'', '' http://golang.org/ 200 OK'', '' http://blog.golang.org/ 404 Not Found'']
       \<noteq> [''Current state:'', '' http://blog.golang.org/ 404 Not Found'', '' http://golang.org/ 200 OK'']"
  using two_entries_ticks by simp

section \<open>ShareMemory\<close>

lemma in_flight_le_pollers: "length (in_flight s) \<le> length (pollers s)"
proof -
  have "length (concat (map holds ps)) \<le> length ps" for ps
  proof (induction ps)
    case Nil
    show ?case by simp
  next
    case (Cons p ps)
    then show ?case by (cases p) simp_all
  qed
  then show ?thesis by (simp add: in_flight_def)
qed

lemma holds_update:
  "i < length ps \<Longrightarrow>
     length (concat (map holds (ps[i := p]))) + length (holds (ps ! i))
       = length (concat (map holds ps)) + length (holds p)"
proof (induction ps arbitrary: i)
  case Nil
  then show ?case by simp
next
  case (Cons a ps)
  then show ?case by (cases i) auto
qed

lemma step_pollers_length:
  assumes "ShareMemory_step n us s s'"
    and "length (pollers s) \<le> n \<and> (\<forall>i. mainG s = Launching i \<longrightarrow> length (pollers s) = i)"
  shows "length (pollers s') \<le> n \<and> (\<forall>i. mainG s' = Launching i \<longrightarrow> length (pollers s') = i)"
  using assms by (induction rule: ShareMemory_step.induct) auto

lemma reach_pollers_length:
  assumes "ShareMemory_reach n us s"
  shows "length (pollers s) \<le> n \<and> (\<forall>i. mainG s = Launching i \<longrightarrow> length (pollers s) = i)"
  using assms
proof (induction rule: ShareMemory_reach.induct)
  case (reach_init n us)
  show ?case by (simp add: ShareMemory_init_def)
next
  case (reach_step n us s s')
  show ?case
    using reach_step.hyps(2) reach_step.IH by (rule step_pollers_length)
qed

lemma step_accounted:
  assumes "ShareMemory_step n us s s'"
    and "accounted us s \<and> (seeder s = None \<longleftrightarrow> mainG s = Seeding \<or> (\<exists>i. mainG s = Launching i))"
  shows "accounted us s' \<and> (seeder s' = None \<longleftrightarrow> mainG s' = Seeding \<or> (\<exists>i. mainG s' = Launching i))"
  using assms
proof (induction rule: ShareMemory_step.induct)
  case (first_send s u us' i n us)
  then show ?case
    using holds_update [of i "pollers s" "Polling \<lparr>url = u, errCount = 0\<rparr>"]
    by (auto simp: accounted_def in_flight_def)
next
  case (poll i s r res r' tx lg n us)
  then show ?case
    using holds_update [of i "pollers s" "Reporting r' tx"]
    by (auto simp: accounted_def in_flight_def split: option.splits)
next
  case (report i s r tx t out n us)
  then show ?case
    using holds_update [of i "pollers s" "Returning r"]
    by (auto simp: accounted_def in_flight_def split: option.splits)
next
  case (complete i s r n us)
  then show ?case
    using holds_update [of i "pollers s" "Receiving"]
    by (auto simp: accounted_def in_flight_def split: option.splits)
next
  case (resubmit j s r i n us)
  then show ?case
    using holds_update [of i "pollers s" "Polling r"]
    by (auto simp: accounted_def in_flight_def split: option.splits)
qed (auto simp: accounted_def in_flight_def split: option.splits)

lemma reach_accounted:
  assumes "ShareMemory_reach n us s"
  shows "accounted us s \<and> (seeder s = None \<longleftrightarrow> mainG s = Seeding \<or> (\<exists>i. mainG s = Launching i))"
  using assms
proof (induction rule: ShareMemory_reach.induct)
  case (reach_init n us)
  show ?case by (simp add: ShareMemory_init_def accounted_def in_flight_def)
next
  case (reach_step n us s s')
  show ?case
    using reach_step.hyps(2) reach_step.IH by (rule step_accounted)
qed

lemma two_in_flight_reach:
  "ShareMemory_reach numPollers urls
     \<lparr>mainG = Completing,
      pollers = [Polling \<lparr>url = ''http://www.google.com/'', errCount = 0\<rparr>,
                 Polling \<lparr>url = ''http://golang.org/'', errCount = 0\<rparr>],
      seeder = Some [''http://blog.golang.org/''], sleepers = [],
      urlStatus = Map.empty, logged = []\<rparr>"
proof -
  let ?g = "\<lparr>url = ''http://www.google.com/'', errCount = 0\<rparr>"
  let ?o = "\<lparr>url = ''http://golang.org/'', errCount = 0\<rparr>"
  let ?S = "\<lambda>m ps sd. \<lparr>mainG = m, pollers = ps, seeder = sd, sleepers = [],
      urlStatus = Map.empty, logged = []\<rparr>"
  have 0: "ShareMemory_reach numPollers urls (?S (Launching 0) [] None)"
    using reach_init [of numPollers urls] by (simp add: ShareMemory_init_def)
  have "ShareMemory_step numPollers urls (?S (Launching 0) [] None)
      (?S (Launching (Suc 0)) [Receiving] None)"
    using launch [of "?S (Launching 0) [] None" 0 numPollers urls] by (simp add: numPollers_def)
  then have 1: "ShareMemory_reach numPollers urls (?S (Launching (Suc 0)) [Receiving] None)"
    using 0 by (blast intro: reach_step)
  have "ShareMemory_step numPollers urls (?S (Launching (Suc 0)) [Receiving] None)
      (?S (Launching (Suc (Suc 0))) [Receiving, Receiving] None)"
    using launch [of "?S (Launching (Suc 0)) [Receiving] None" "Suc 0" numPollers urls]
    by (simp add: numPollers_def)
  then have 2: "ShareMemory_reach numPollers urls
      (?S (Launching (Suc (Suc 0))) [Receiving, Receiving] None)"
    using 1 by (blast intro: reach_step)
  have "ShareMemory_step numPollers urls (?S (Launching (Suc (Suc 0))) [Receiving, Receiving] None)
      (?S Seeding [Receiving, Receiving] None)"
    using launched [of "?S (Launching (Suc (Suc 0))) [Receiving, Receiving] None" "Suc (Suc 0)"
        numPollers urls]
    by (simp add: numPollers_def)
  then have 3: "ShareMemory_reach numPollers urls (?S Seeding [Receiving, Receiving] None)"
    using 2 by (blast intro: reach_step)
  have "ShareMemory_step numPollers urls (?S Seeding [Receiving, Receiving] None)
      (?S Completing [Receiving, Receiving] (Some urls))"
    using seed [of "?S Seeding [Receiving, Receiving] None" numPollers urls] by simp
  then have 4: "ShareMemory_reach numPollers urls (?S Completing [Receiving, Receiving] (Some urls))"
    using 3 by (blast intro: reach_step)
  have "ShareMemory_step numPollers urls (?S Completing [Receiving, Receiving] (Some urls))
      (?S Completing [Polling ?g, Receiving] (Some [''http://golang.org/'', ''http://blog.golang.org/'']))"
    using first_send [of "?S Completing [Receiving, Receiving] (Some urls)" "''http://www.google.com/''"
        "[''http://golang.org/'', ''http://blog.golang.org/'']" 0 numPollers urls]
    by (simp add: urls_def)
  then have 5: "ShareMemory_reach numPollers urls
      (?S Completing [Polling ?g, Receiving] (Some [''http://golang.org/'', ''http://blog.golang.org/'']))"
    using 4 by (blast intro: reach_step)
  have "ShareMemory_step numPollers urls
      (?S Completing [Polling ?g, Receiving] (Some [''http://golang.org/'', ''http://blog.golang.org/'']))
      (?S Completing [Polling ?g, Polling ?o] (Some [''http://blog.golang.org/'']))"
    using first_send [of "?S Completing [Polling ?g, Receiving]
          (Some [''http://golang.org/'', ''http://blog.golang.org/''])"
        "''http://golang.org/''" "[''http://blog.golang.org/'']" "Suc 0" numPollers urls]
    by simp
  then show ?thesis
    using 5 by (blast intro: reach_step)
qed

text \<open>
  C8. With the unbuffered channels \<^verbatim>\<open>pending\<close> and \<^verbatim>\<open>complete\<close>, in every state of every
  execution the number of Resources in flight, those held by a Poller, is at most the
  number of Pollers; every other Resource is held by the goroutine that waits to send
  it or has just received it, none by a channel.
\<close>

theorem in_flight_at_most_numPollers:
  "ShareMemory_reach n us s \<longrightarrow>
     length (in_flight s) \<le> n \<and> length (pollers s) \<le> n \<and> accounted us s"
proof
  assume r: "ShareMemory_reach n us s"
  then have "length (pollers s) \<le> n"
    using reach_pollers_length by blast
  then show "length (in_flight s) \<le> n \<and> length (pollers s) \<le> n \<and> accounted us s"
    using in_flight_le_pollers [of s] reach_accounted [OF r] by simp
qed

theorem in_flight_at_most_numPollers_witness:
  "ShareMemory_reach numPollers urls
     \<lparr>mainG = Completing,
      pollers = [Polling \<lparr>url = ''http://www.google.com/'', errCount = 0\<rparr>,
                 Polling \<lparr>url = ''http://golang.org/'', errCount = 0\<rparr>],
      seeder = Some [''http://blog.golang.org/''], sleepers = [],
      urlStatus = Map.empty, logged = []\<rparr>
   \<and> length (in_flight
     \<lparr>mainG = Completing,
      pollers = [Polling \<lparr>url = ''http://www.google.com/'', errCount = 0\<rparr>,
                 Polling \<lparr>url = ''http://golang.org/'', errCount = 0\<rparr>],
      seeder = Some [''http://blog.golang.org/''], sleepers = [],
      urlStatus = Map.empty, logged = []\<rparr>) \<le> numPollers
   \<and> in_flight
     \<lparr>mainG = Completing,
      pollers = [Polling \<lparr>url = ''http://www.google.com/'', errCount = 0\<rparr>,
                 Polling \<lparr>url = ''http://golang.org/'', errCount = 0\<rparr>],
      seeder = Some [''http://blog.golang.org/''], sleepers = [],
      urlStatus = Map.empty, logged = []\<rparr>
     = [\<lparr>url = ''http://www.google.com/'', errCount = 0\<rparr>,
        \<lparr>url = ''http://golang.org/'', errCount = 0\<rparr>]"
  using two_in_flight_reach
    in_flight_at_most_numPollers [of numPollers urls
     "\<lparr>mainG = Completing,
      pollers = [Polling \<lparr>url = ''http://www.google.com/'', errCount = 0\<rparr>,
                 Polling \<lparr>url = ''http://golang.org/'', errCount = 0\<rparr>],
      seeder = Some [''http://blog.golang.org/''], sleepers = [],
      urlStatus = Map.empty, logged = []\<rparr>"]
  by (simp add: in_flight_def)

end
